theory Spec2Isabelle
  imports Main "HOL-Library.Word"
begin

unbundle bit_operations_syntax

section \<open>The IR graph (module IRGraph)\<close>

subsection \<open>Names\<close>

text \<open>
  Names for types are given or inferred. \<open>Named\<close> is usually instantiated with a set of
  strings, because classes can have more than one name.
\<close>

datatype 'a Named = Given 'a | Inferred 'a

fun updateGiven :: "('a option \<Rightarrow> 'b) \<Rightarrow> 'a Named \<Rightarrow> 'b Named" where
  "updateGiven f (Given x) = Given (f (Some x))"
| "updateGiven f _ = Given (f None)"

fun updateInferred :: "('a \<Rightarrow> 'a) \<Rightarrow> 'a Named \<Rightarrow> 'a Named" where
  "updateInferred f (Inferred x) = Inferred (f x)"
| "updateInferred _ given = given"

fun namedValue :: "'a Named \<Rightarrow> 'a" where
  "namedValue (Given x) = x"
| "namedValue (Inferred x) = x"

definition mapToInferred :: "('a \<Rightarrow> 'b) \<Rightarrow> 'a Named \<Rightarrow> 'b Named" where
  "mapToInferred f n = Inferred (f (namedValue n))"

fun unifyNamed :: "('a \<Rightarrow> 'a \<Rightarrow> 'a) \<Rightarrow> 'a Named \<Rightarrow> 'a Named \<Rightarrow> 'a Named" where
  "unifyNamed f (Given ga) (Given gb) = Given (f ga gb)"
| "unifyNamed f (Given a) _ = Given a"
| "unifyNamed f _ (Given b) = Given b"
| "unifyNamed f (Inferred ia) (Inferred ib) = Inferred (f ia ib)"

subsection \<open>Types\<close>

text \<open>
  PureScript's \<open>Int\<close> is a 32-bit integer. The bit set \<open>primitives\<close> is a \<open>32 word\<close>;
  class indices are only compared and looked up, never computed with, and are \<open>int\<close>.
  The field \<open>names\<close> occurs in three records of the source; the selectors carry a prefix.
\<close>

record IREnumData =
  e_names :: "string set Named"
  e_values :: "string set"

datatype IRType
  = IRNoInformation
  | IRAnyType
  | IRNull
  | IRInteger
  | IRDouble
  | IRBool
  | IRString
  | IRArray IRType
  | IRClass int
  | IRMap IRType
  | IREnum IREnumData
  | IRUnion IRUnionRep
and IRUnionRep = IRUnionRep
    (u_names: "string set Named")
    (primitives: "32 word")
    (arrayType: "IRType option")
    (classRef: "int option")
    (mapType: "IRType option")
    (enumData: "IREnumData option")

text \<open>\<open>properties\<close> is a \<open>Map String IRType\<close>; the list is its \<open>toUnfoldable\<close> view.\<close>

record IRClassData =
  c_names :: "string set Named"
  properties :: "(string \<times> IRType) list"

datatype Entry
  = NoType
  | Class IRClassData
  | Redirect int

record IRGraph =
  classes :: "Entry list"
  toplevels :: "(string \<times> IRType) list"

definition irUnion_Null :: "32 word" where
  "irUnion_Null = 2"

definition irUnion_Integer :: "32 word" where
  "irUnion_Integer = 4"

definition irUnion_Double :: "32 word" where
  "irUnion_Double = irUnion_Integer + 8"

definition irUnion_Number :: "32 word" where
  "irUnion_Number = irUnion_Double"

definition irUnion_Bool :: "32 word" where
  "irUnion_Bool = 16"

definition irUnion_String :: "32 word" where
  "irUnion_String = 32"

definition emptyUnion :: IRUnionRep where
  "emptyUnion = IRUnionRep (Inferred {}) 0 None None None None"

subsection \<open>The class arena\<close>

text \<open>
  \<open>Seq.index\<close> answers \<open>Nothing\<close> outside the sequence. \<open>followIndex\<close> is partial in the
  source: \<open>fromJust\<close> fails on an index outside the arena and the \<open>case\<close> has no branch
  for \<open>NoType\<close>; on a cycle of redirects it does not return. The model counts the lookups
  it may still make: \<open>None\<close> is "no answer within that many lookups".
\<close>

datatype error
  = FromJustNothing
  | FailedPatternMatch

definition seq_index :: "int \<Rightarrow> 'a list \<Rightarrow> 'a option" where
  "seq_index i xs = (if 0 \<le> i \<and> i < int (length xs) then Some (xs ! nat i) else None)"

fun followIndex :: "nat \<Rightarrow> IRGraph \<Rightarrow> int \<Rightarrow> (error + int \<times> IRClassData) option" where
  "followIndex 0 graph index = None"
| "followIndex (Suc fuel) graph index =
     (case seq_index index (classes graph) of
        None \<Rightarrow> Some (Inl FromJustNothing)
      | Some (Class cd) \<Rightarrow> Some (Inr (index, cd))
      | Some (Redirect i) \<Rightarrow> followIndex fuel graph i
      | Some NoType \<Rightarrow> Some (Inl FailedPatternMatch))"

definition mapWithIndex :: "(int \<Rightarrow> 'a \<Rightarrow> 'b) \<Rightarrow> 'a list \<Rightarrow> 'b list" where
  "mapWithIndex f xs = map (\<lambda>(i, x). f (int i) x) (enumerate 0 xs)"

fun mapClasses_mapper :: "(int \<Rightarrow> IRClassData \<Rightarrow> 'a) \<Rightarrow> int \<Rightarrow> Entry \<Rightarrow> 'a list" where
  "mapClasses_mapper f _ NoType = []"
| "mapClasses_mapper f _ (Redirect _) = []"
| "mapClasses_mapper f i (Class cd) = [f i cd]"

definition mapClasses :: "(int \<Rightarrow> IRClassData \<Rightarrow> 'a) \<Rightarrow> IRGraph \<Rightarrow> 'a list" where
  "mapClasses f graph = concat (mapWithIndex (mapClasses_mapper f) (classes graph))"

fun entryMapper :: "(int \<Rightarrow> IRClassData \<Rightarrow> IRClassData) \<Rightarrow> int \<Rightarrow> Entry \<Rightarrow> Entry" where
  "entryMapper f i (Class cd) = Class (f i cd)"
| "entryMapper f _ x = x"

definition mapClassesInSeq :: "(int \<Rightarrow> IRClassData \<Rightarrow> IRClassData) \<Rightarrow> Entry list \<Rightarrow> Entry list" where
  "mapClassesInSeq f entries = mapWithIndex (entryMapper f) entries"

definition classesInGraph :: "IRGraph \<Rightarrow> (int \<times> IRClassData) list" where
  "classesInGraph = mapClasses Pair"

subsection \<open>Regathering class names\<close>

text \<open>
  The maps from class index to name set are \<open>Map Int (Set String)\<close>; \<open>M.unionWith\<close> joins
  two of them, \<open>combine\<close> folds it over a list. \<open>singular\<close> comes from the module
  \<open>Data.String.Util\<close> and is a parameter of the functions that call it.
\<close>

definition unionWith :: "('v \<Rightarrow> 'v \<Rightarrow> 'v) \<Rightarrow> ('k \<rightharpoonup> 'v) \<Rightarrow> ('k \<rightharpoonup> 'v) \<Rightarrow> ('k \<rightharpoonup> 'v)" where
  "unionWith f m1 m2 =
     (\<lambda>k. case m1 k of
            None \<Rightarrow> m2 k
          | Some a \<Rightarrow> (case m2 k of None \<Rightarrow> Some a | Some b \<Rightarrow> Some (f a b)))"

definition combine :: "(int \<rightharpoonup> string set) list \<Rightarrow> (int \<rightharpoonup> string set)" where
  "combine xs = foldr (unionWith (\<union>)) xs Map.empty"

fun gatherFromType :: "(string \<Rightarrow> string) \<Rightarrow> string \<Rightarrow> IRType \<Rightarrow> (int \<rightharpoonup> string set)" where
  "gatherFromType singular name (IRClass i) = [i \<mapsto> {name}]"
| "gatherFromType singular name (IRArray a) = gatherFromType singular (singular name) a"
| "gatherFromType singular name (IRMap m) = gatherFromType singular (singular name) m"
| "gatherFromType singular name (IRUnion (IRUnionRep ns ps a c m ed)) =
     (let fromArray = (case a of None \<Rightarrow> Map.empty | Some t \<Rightarrow> gatherFromType singular name t);
          fromMap = (case m of None \<Rightarrow> Map.empty | Some t \<Rightarrow> gatherFromType singular name t);
          fromClass = (case c of None \<Rightarrow> Map.empty
                       | Some i \<Rightarrow> gatherFromType singular name (IRClass i))
      in combine [fromArray, fromMap, fromClass])"
| "gatherFromType singular name _ = Map.empty"

definition gatherFromClassData :: "(string \<Rightarrow> string) \<Rightarrow> int \<Rightarrow> IRClassData \<Rightarrow> (int \<rightharpoonup> string set)" where
  "gatherFromClassData singular _ cd =
     combine (map (\<lambda>(n, t). gatherFromType singular n t) (properties cd))"

definition classMapper :: "(int \<rightharpoonup> string set) \<Rightarrow> int \<Rightarrow> IRClassData \<Rightarrow> IRClassData" where
  "classMapper newNames i cd =
     (let newNamesForClass =
            updateInferred (\<lambda>old. case newNames i of None \<Rightarrow> old | Some s \<Rightarrow> s) (c_names cd)
      in \<lparr> c_names = newNamesForClass, properties = properties cd \<rparr>)"

definition regatherClassNames :: "(string \<Rightarrow> string) \<Rightarrow> IRGraph \<Rightarrow> IRGraph" where
  "regatherClassNames singular graph =
     (let newNames = combine (mapClasses (gatherFromClassData singular) graph)
      in \<lparr> classes = mapClassesInSeq (classMapper newNames) (classes graph),
           toplevels = toplevels graph \<rparr>)"

text \<open>
  Modelled from the spec: \<open>Data.String.Util.singular\<close>, which the source imports and
  which is not among the source files. The depluralizer strips a trailing \<open>ies\<close>, putting
  \<open>y\<close> in its place, or else a trailing \<open>es\<close>, or else a trailing \<open>s\<close>; any other name
  passes through unchanged.
\<close>

definition stripSuffix :: "string \<Rightarrow> string \<Rightarrow> string option" where
  "stripSuffix suffix s =
     (if length suffix \<le> length s \<and> drop (length s - length suffix) s = suffix
      then Some (take (length s - length suffix) s) else None)"

definition singular :: "string \<Rightarrow> string" where
  "singular s =
     (case stripSuffix ''ies'' s of
        Some r \<Rightarrow> r @ ''y''
      | None \<Rightarrow>
         (case stripSuffix ''es'' s of
            Some r \<Rightarrow> r
          | None \<Rightarrow> (case stripSuffix ''s'' s of Some r \<Rightarrow> r | None \<Rightarrow> s)))"

subsection \<open>Predicates on types\<close>

fun canBeNull :: "IRType \<Rightarrow> bool" where
  "canBeNull IRAnyType = True"
| "canBeNull IRNull = True"
| "canBeNull (IRUnion u) = (primitives u AND irUnion_Null \<noteq> 0)"
| "canBeNull IRNoInformation = True"
| "canBeNull _ = False"

subsection \<open>Unions\<close>

record removeNull_result =
  hasNull :: bool
  nonNullUnion :: IRUnionRep

definition removeNullFromUnion :: "IRUnionRep \<Rightarrow> removeNull_result" where
  "removeNullFromUnion u =
     (if irUnion_Null AND primitives u = 0 then
        \<lparr> hasNull = False, nonNullUnion = u \<rparr>
      else
        \<lparr> hasNull = True,
          nonNullUnion = IRUnionRep (u_names u) (irUnion_Null XOR primitives u)
            (arrayType u) (classRef u) (mapType u) (enumData u) \<rparr>)"

definition unionHasArray :: "IRUnionRep \<Rightarrow> IRType option" where
  "unionHasArray u = map_option IRArray (arrayType u)"

definition unionHasClass :: "IRUnionRep \<Rightarrow> IRType option" where
  "unionHasClass u = map_option IRClass (classRef u)"

definition unionHasMap :: "IRUnionRep \<Rightarrow> IRType option" where
  "unionHasMap u = map_option IRMap (mapType u)"

definition isInPrimitives :: "32 word \<Rightarrow> 32 word \<Rightarrow> bool" where
  "isInPrimitives prims b \<longleftrightarrow> b AND prims \<noteq> 0"

definition isInNumber :: "32 word \<Rightarrow> 32 word \<Rightarrow> bool" where
  "isInNumber prims bits \<longleftrightarrow> irUnion_Number AND prims = bits"

text \<open>
  \<open>forUnion_\<close> and \<open>mapUnionM\<close> run in any monad. The model takes the state monad: a
  computation is a function from the state to a result and the next state, so the order of
  the calls of \<open>f\<close> is the order in which the state is threaded.
\<close>

type_synonym ('a, 's) m = "'s \<Rightarrow> 'a \<times> 's"

definition pure_m :: "'a \<Rightarrow> ('a, 's) m" where
  "pure_m a = (\<lambda>s. (a, s))"

definition bind_m :: "('a, 's) m \<Rightarrow> ('a \<Rightarrow> ('b, 's) m) \<Rightarrow> ('b, 's) m" where
  "bind_m x k = (\<lambda>s. case x s of (a, s') \<Rightarrow> k a s')"

definition then_m :: "(unit, 's) m \<Rightarrow> ('b, 's) m \<Rightarrow> ('b, 's) m" where
  "then_m x y = bind_m x (\<lambda>_. y)"

definition when_m :: "bool \<Rightarrow> (unit, 's) m \<Rightarrow> (unit, 's) m" where
  "when_m c x = (if c then x else pure_m ())"

text \<open>\<open>forUnion_\<close> of the source; an identifier cannot end in an underscore here.\<close>

definition forUnion' :: "IRUnionRep \<Rightarrow> (IRType \<Rightarrow> (unit, 's) m) \<Rightarrow> (unit, 's) m" where
  "forUnion' u f =
     (let inPrimitives = isInPrimitives (primitives u);
          inNumber = isInNumber (primitives u)
      in
        then_m (when_m (inPrimitives irUnion_Null) (f IRNull))
       (then_m (when_m (inNumber irUnion_Integer) (f IRInteger))
       (then_m (when_m (inNumber irUnion_Double) (f IRDouble))
       (then_m (when_m (inPrimitives irUnion_Bool) (f IRBool))
       (then_m (when_m (inPrimitives irUnion_String) (f IRString))
       (then_m (case arrayType u of Some a \<Rightarrow> f (IRArray a) | None \<Rightarrow> pure_m ())
       (then_m (case classRef u of Some i \<Rightarrow> f (IRClass i) | None \<Rightarrow> pure_m ())
               (case mapType u of Some m \<Rightarrow> f (IRMap m) | None \<Rightarrow> pure_m ()))))))))"

definition mapPrimitive ::
  "(IRType \<Rightarrow> ('a, 's) m) \<Rightarrow> 32 word \<Rightarrow> (32 word \<Rightarrow> 32 word \<Rightarrow> bool) \<Rightarrow> 32 word \<Rightarrow> IRType
     \<Rightarrow> 'a list \<Rightarrow> ('a list, 's) m" where
  "mapPrimitive f prims predicate b t l =
     (if predicate prims b then bind_m (f t) (\<lambda>result. pure_m (result # l))
      else pure_m l)"

fun mapGeneral ::
  "(IRType \<Rightarrow> ('a, 's) m) \<Rightarrow> 'x option \<Rightarrow> ('x \<Rightarrow> IRType) \<Rightarrow> 'a list \<Rightarrow> ('a list, 's) m" where
  "mapGeneral f None _ l = pure_m l"
| "mapGeneral f (Some x) convert l = bind_m (f (convert x)) (\<lambda>result. pure_m (result # l))"

definition mapUnionM :: "(IRType \<Rightarrow> ('a, 's) m) \<Rightarrow> IRUnionRep \<Rightarrow> ('a list, 's) m" where
  "mapUnionM f u =
     bind_m (bind_m (bind_m (bind_m (bind_m (bind_m (bind_m (bind_m
       (pure_m [])
       (mapGeneral f (mapType u) IRMap))
       (mapGeneral f (classRef u) IRClass))
       (mapGeneral f (arrayType u) IRArray))
       (mapPrimitive f (primitives u) isInPrimitives irUnion_String IRString))
       (mapPrimitive f (primitives u) isInPrimitives irUnion_Bool IRBool))
       (mapPrimitive f (primitives u) isInNumber irUnion_Double IRDouble))
       (mapPrimitive f (primitives u) isInNumber irUnion_Integer IRInteger))
       (mapPrimitive f (primitives u) isInPrimitives irUnion_Null IRNull)"

text \<open>\<open>mapUnion\<close> runs \<open>mapUnionM\<close> in the identity monad: the state is \<open>unit\<close>.\<close>

definition mapUnion :: "(IRType \<Rightarrow> 'a) \<Rightarrow> IRUnionRep \<Rightarrow> 'a list" where
  "mapUnion f u = fst (mapUnionM (\<lambda>t. pure_m (f t)) u ())"

definition unionToList :: "IRUnionRep \<Rightarrow> IRType list" where
  "unionToList = mapUnion id"

definition nullableFromUnion :: "IRUnionRep \<Rightarrow> IRType option" where
  "nullableFromUnion u =
     (let r = removeNullFromUnion u in
      if hasNull r then
        (case unionToList (nonNullUnion r) of
           [x] \<Rightarrow> Some x
         | _ \<Rightarrow> None)
      else None)"

fun isUnionMember :: "IRType \<Rightarrow> IRUnionRep \<Rightarrow> bool" where
  "isUnionMember IRNull u = isInPrimitives (primitives u) irUnion_Null"
| "isUnionMember IRInteger u = isInNumber (primitives u) irUnion_Integer"
| "isUnionMember IRDouble u = isInNumber (primitives u) irUnion_Double"
| "isUnionMember IRBool u = isInPrimitives (primitives u) irUnion_Bool"
| "isUnionMember IRString u = isInPrimitives (primitives u) irUnion_String"
| "isUnionMember (IRArray a) u = (case arrayType u of None \<Rightarrow> False | Some x \<Rightarrow> a = x)"
| "isUnionMember (IRClass i) u = (case classRef u of None \<Rightarrow> False | Some x \<Rightarrow> i = x)"
| "isUnionMember (IRMap m) u = (case mapType u of None \<Rightarrow> False | Some x \<Rightarrow> m = x)"
| "isUnionMember (IREnum ed) u = (case enumData u of None \<Rightarrow> False | Some x \<Rightarrow> ed = x)"
| "isUnionMember (IRUnion _) u = False"
| "isUnionMember IRAnyType u = False"
| "isUnionMember IRNoInformation u = False"

text \<open>The kinds \<open>forUnion_\<close> hands to its callback, in the order of the calls.\<close>

definition visited :: "IRUnionRep \<Rightarrow> IRType list" where
  "visited u = snd (forUnion' u (\<lambda>t s. ((), s @ [t])) [])"

section \<open>The renderers (ConvenienceRenderer, TypeScript)\<close>

subsection \<open>What the renderers import\<close>

text \<open>
  A JavaScript \<open>throw\<close> of a string is the error \<open>Throw\<close>. \<open>NotDefined\<close> is the failure
  of \<open>defined\<close> (see below), whose message the source files do not show.
\<close>

datatype js_error
  = Throw string
  | NotDefined

text \<open>
  Modelled from the spec: the types of module \<open>Type\<close>, which is not among the source
  files. They are the closed family of the data model as \<open>matchType\<close> dispatches on it;
  a named type carries the combined form of its names. \<open>nullableFromUnionT\<close> is that
  module's \<open>nullableFromUnion\<close>: the sole non-null member of a union that holds null and
  exactly one other member.
\<close>

datatype Type
  = AnyType
  | NullType
  | BoolType
  | IntegerType
  | DoubleType
  | StringType
  | ArrayType (items: Type)
  | ClassType (class_combined: string) (class_properties: "(string \<times> Type) list")
  | MapType (map_values: Type)
  | EnumType (enum_combined: string) (enum_cases: "string list")
  | UnionType (union_combined: string) (children: "Type list")

fun combined :: "Type \<Rightarrow> string" where
  "combined (ClassType n _) = n"
| "combined (EnumType n _) = n"
| "combined (UnionType n _) = n"
| "combined _ = []"

fun isUnionType :: "Type \<Rightarrow> bool" where
  "isUnionType (UnionType _ _) = True"
| "isUnionType _ = False"

fun isArrayType :: "Type \<Rightarrow> bool" where
  "isArrayType (ArrayType _) = True"
| "isArrayType _ = False"

fun nullableFromUnionT :: "Type \<Rightarrow> Type option" where
  "nullableFromUnionT (UnionType n cs) =
     (if NullType \<in> set cs then
        (case filter (\<lambda>t. t \<noteq> NullType) cs of [x] \<Rightarrow> Some x | _ \<Rightarrow> None)
      else None)"
| "nullableFromUnionT _ = None"

text \<open>
  Modelled from the spec: the names and namespaces of module \<open>Naming\<close> (a name is fixed,
  simple with a namer, or composed from other names; a namespace owns the names added to
  it), the \<open>Sourcelike\<close> of module \<open>Source\<close> (a string, a name or a sequence), and the
  helpers \<open>defined\<close> and \<open>intercalate\<close> of module \<open>Support\<close>; none of them is among
  the source files. \<open>defined\<close> hands back a value that is there and fails on
  \<open>undefined\<close>; \<open>intercalate\<close> puts the separator between the elements.
\<close>

record Namer =
  nameStyle :: "string \<Rightarrow> string"
  prefixes :: "string list"

datatype Name
  = FixedName string
  | SimpleName string Namer
  | DependencyName "Name list" "string list \<Rightarrow> string"

datatype Sourcelike
  = Str string
  | NameRef Name
  | Arr "Sourcelike list"

record Namespace =
  ns_name :: string
  members :: "Name list"

definition ns_add :: "Name \<Rightarrow> Namespace \<Rightarrow> Name \<times> Namespace" where
  "ns_add named ns = (named, ns \<lparr> members := members ns @ [named] \<rparr>)"

definition defined :: "'a option \<Rightarrow> js_error + 'a" where
  "defined x = (case x of Some v \<Rightarrow> Inr v | None \<Rightarrow> Inl NotDefined)"

fun intercalate :: "'a \<Rightarrow> 'a list \<Rightarrow> 'a list" where
  "intercalate sep [] = []"
| "intercalate sep [x] = [x]"
| "intercalate sep (x # xs) = x # sep # intercalate sep xs"

subsection \<open>ConvenienceRenderer\<close>

text \<open>
  The fields of the renderer that the functions below read and write. \<open>namedTypeNamer\<close>
  is abstract in \<open>ConvenienceRenderer\<close> and a field here. The TypeScript renderer adds its
  three options.
\<close>

record ConvenienceRenderer =
  globalNamespace :: Namespace
  namesForNamedTypes :: "Type \<rightharpoonup> Name"
  namedTypeNamer :: Namer

record TypeScriptRenderer = ConvenienceRenderer +
  justTypes :: bool
  inlineUnions :: bool
  runtimeTypecheck :: bool

definition addNamedForNamedType ::
  "Type \<Rightarrow> 'a ConvenienceRenderer_scheme \<Rightarrow> Name \<times> 'a ConvenienceRenderer_scheme" where
  "addNamedForNamedType type r =
     (case namesForNamedTypes r type of
        Some existing \<Rightarrow> (existing, r)
      | None \<Rightarrow>
          (let name = combined type;
               (named, ns) = ns_add (SimpleName name (namedTypeNamer r)) (globalNamespace r)
           in (named, r \<lparr> globalNamespace := ns,
                           namesForNamedTypes := (namesForNamedTypes r)(type \<mapsto> named) \<rparr>)))"

definition nameForNamedType :: "'a ConvenienceRenderer_scheme \<Rightarrow> Type \<Rightarrow> js_error + Name" where
  "nameForNamedType r t =
     (if namesForNamedTypes r t = None then Inl (Throw ''Named type does not exist.'')
      else defined (namesForNamedTypes r t))"

subsection \<open>The TypeScript renderer\<close>

lemma nullableFromUnionT_size: "nullableFromUnionT t = Some x \<Longrightarrow> size x < size t"
proof (cases t)
  case (UnionType n cs)
  assume "nullableFromUnionT t = Some x"
  with UnionType have "filter (\<lambda>t. t \<noteq> NullType) cs = [x]"
    by (auto split: if_splits list.splits)
  then have "x \<in> set (filter (\<lambda>t. t \<noteq> NullType) cs)" by simp
  then have "x \<in> set cs" by simp
  then have "size x < Suc (size_list size cs)"
    by (simp add: less_Suc_eq_le size_list_estimation')
  with UnionType show ?thesis by simp
qed simp_all

text \<open>
  \<open>sourceFor\<close> and \<open>typeMapTypeFor\<close> read the renderer and return source text or throw.
  \<open>sourceForAll\<close> is \<open>children.map(this.sourceFor)\<close>: the first throw ends the loop.
\<close>

function sourceFor :: "TypeScriptRenderer \<Rightarrow> Type \<Rightarrow> js_error + Sourcelike"
  and sourceForAll :: "TypeScriptRenderer \<Rightarrow> Type list \<Rightarrow> js_error + Sourcelike list" where
  "sourceFor r AnyType = Inr (Str ''any'')"
| "sourceFor r NullType = Inr (Str ''null'')"
| "sourceFor r BoolType = Inr (Str ''boolean'')"
| "sourceFor r IntegerType = Inr (Str ''number'')"
| "sourceFor r DoubleType = Inr (Str ''number'')"
| "sourceFor r StringType = Inr (Str ''string'')"
| "sourceFor r (ArrayType its) =
     (case sourceFor r its of
        Inl e \<Rightarrow> Inl e
      | Inr itemType \<Rightarrow>
          if inlineUnions r \<and> isUnionType its then
            (case nullableFromUnionT its of
               Some nullable \<Rightarrow>
                 (case sourceFor r nullable of
                    Inl e \<Rightarrow> Inl e
                  | Inr s \<Rightarrow> Inr (Arr [s, Str ''[]'']))
             | None \<Rightarrow> Inr (Arr [Str ''Array<'', itemType, Str ''>'']))
          else if isArrayType its then Inr (Arr [Str ''Array<'', itemType, Str ''>''])
          else Inr (Arr [itemType, Str ''[]'']))"
| "sourceFor r (ClassType n ps) =
     (case nameForNamedType r (ClassType n ps) of
        Inl e \<Rightarrow> Inl e
      | Inr named \<Rightarrow> Inr (NameRef named))"
| "sourceFor r (MapType vs) =
     (case sourceFor r vs of
        Inl e \<Rightarrow> Inl e
      | Inr s \<Rightarrow> Inr (Arr [Str ''{ [key: string]: '', s, Str '' }'']))"
| "sourceFor r (EnumType n cs) = Inl (Throw ''FIXME: support enums'')"
| "sourceFor r (UnionType n cs) =
     (if inlineUnions r \<or> nullableFromUnionT (UnionType n cs) \<noteq> None then
        (case sourceForAll r cs of
           Inl e \<Rightarrow> Inl e
         | Inr chs \<Rightarrow> Inr (Arr (intercalate (Str '' | '') chs)))
      else
        (case nameForNamedType r (UnionType n cs) of
           Inl e \<Rightarrow> Inl e
         | Inr named \<Rightarrow> Inr (NameRef named)))"
| "sourceForAll r [] = Inr []"
| "sourceForAll r (t # ts) =
     (case sourceFor r t of
        Inl e \<Rightarrow> Inl e
      | Inr s \<Rightarrow> (case sourceForAll r ts of Inl e \<Rightarrow> Inl e | Inr ss \<Rightarrow> Inr (s # ss)))"
  by pat_completeness auto
termination
  by (relation "measure (\<lambda>x. case x of Inl (r, t) \<Rightarrow> size t | Inr (r, ts) \<Rightarrow> size_list size ts)")
    (auto dest: nullableFromUnionT_size)


function typeMapTypeFor :: "TypeScriptRenderer \<Rightarrow> Type \<Rightarrow> js_error + Sourcelike"
  and typeMapTypeForAll :: "TypeScriptRenderer \<Rightarrow> Type list \<Rightarrow> js_error + Sourcelike list" where
  "typeMapTypeFor r AnyType = Inr (Str ''\"undefined\"'')"
| "typeMapTypeFor r NullType = Inr (Str ''\"undefined\"'')"
| "typeMapTypeFor r BoolType = Inr (Str ''\"boolean\"'')"
| "typeMapTypeFor r IntegerType = Inr (Str ''\"number\"'')"
| "typeMapTypeFor r DoubleType = Inr (Str ''\"number\"'')"
| "typeMapTypeFor r StringType = Inr (Str ''\"string\"'')"
| "typeMapTypeFor r (ArrayType its) =
     (case typeMapTypeFor r its of
        Inl e \<Rightarrow> Inl e
      | Inr s \<Rightarrow> Inr (Arr [Str ''array('', s, Str '')'']))"
| "typeMapTypeFor r (ClassType n ps) =
     (case nameForNamedType r (ClassType n ps) of
        Inl e \<Rightarrow> Inl e
      | Inr named \<Rightarrow> Inr (Arr [Str ''object(\"'', NameRef named, Str ''\")'']))"
| "typeMapTypeFor r (MapType vs) =
     (case typeMapTypeFor r vs of
        Inl e \<Rightarrow> Inl e
      | Inr s \<Rightarrow> Inr (Arr [Str ''map('', s, Str '')'']))"
| "typeMapTypeFor r (EnumType n cs) = Inl (Throw ''FIXME: support enums'')"
| "typeMapTypeFor r (UnionType n cs) =
     (case typeMapTypeForAll r cs of
        Inl e \<Rightarrow> Inl e
      | Inr chs \<Rightarrow> Inr (Arr (Str ''union('' # intercalate (Str '', '') chs @ [Str '')''])))"
| "typeMapTypeForAll r [] = Inr []"
| "typeMapTypeForAll r (t # ts) =
     (case typeMapTypeFor r t of
        Inl e \<Rightarrow> Inl e
      | Inr s \<Rightarrow> (case typeMapTypeForAll r ts of Inl e \<Rightarrow> Inl e | Inr ss \<Rightarrow> Inr (s # ss)))"
  by pat_completeness auto
termination
  by (relation "measure (\<lambda>x. case x of Inl (r, t) \<Rightarrow> size t | Inr (r, ts) \<Rightarrow> size_list size ts)")
    auto

definition caseNamer :: "TypeScriptRenderer \<Rightarrow> js_error + Namer" where
  "caseNamer r = Inl (Throw ''FIXME: support enums'')"

text \<open>
  Modelled from the spec: the output of module \<open>Renderer\<close>, which is not among the source
  files: the lines emitted so far and the annotation stream (issues and hovers).
  \<open>emitLine\<close> appends one line. \<open>emitUnion\<close> is the renderer's emit hook for a named
  union; it returns the output as it is when it throws.
\<close>

datatype Annotation
  = Issue string
  | Hover string

record RenderOutput =
  emitted :: "Sourcelike list"
  annotations :: "Annotation list"

definition emitLine :: "Sourcelike list \<Rightarrow> RenderOutput \<Rightarrow> RenderOutput" where
  "emitLine parts out = out \<lparr> emitted := emitted out @ [Arr parts] \<rparr>"

definition emitUnion ::
  "TypeScriptRenderer \<Rightarrow> Type \<Rightarrow> Name \<Rightarrow> RenderOutput \<Rightarrow> (js_error + unit) \<times> RenderOutput" where
  "emitUnion r u unionName out =
     (case sourceForAll r (children u) of
        Inl e \<Rightarrow> (Inl e, out)
      | Inr chs \<Rightarrow>
          (Inr (),
           emitLine [Str ''export type '', NameRef unionName, Str '' = '',
                     Arr (intercalate (Str '' | '') chs), Str '';''] out))"

text \<open>An enum, or an array or map whose element type is one, at any depth.\<close>

fun enumElement :: "Type \<Rightarrow> bool" where
  "enumElement (EnumType _ _) = True"
| "enumElement (ArrayType t) = enumElement t"
| "enumElement (MapType t) = enumElement t"
| "enumElement _ = False"

section \<open>Vocabulary of the properties\<close>

subsection \<open>Class indices in types and in the arena\<close>

text \<open>
  The class indices that occur in a type, the indices an arena and its top levels use, and
  the indices reachable from the top levels through redirects and property types.
\<close>

fun classRefs :: "IRType \<Rightarrow> int set" where
  "classRefs (IRClass i) = {i}"
| "classRefs (IRArray a) = classRefs a"
| "classRefs (IRMap m) = classRefs m"
| "classRefs (IRUnion (IRUnionRep n p a c m e)) =
     (case a of None \<Rightarrow> {} | Some t \<Rightarrow> classRefs t) \<union>
     (case c of None \<Rightarrow> {} | Some i \<Rightarrow> {i}) \<union>
     (case m of None \<Rightarrow> {} | Some t \<Rightarrow> classRefs t)"
| "classRefs _ = {}"

fun entryRefs :: "Entry \<Rightarrow> int set" where
  "entryRefs NoType = {}"
| "entryRefs (Redirect j) = {j}"
| "entryRefs (Class cd) = (\<Union>(p, t) \<in> set (properties cd). classRefs t)"

definition usedIndices :: "IRGraph \<Rightarrow> int set" where
  "usedIndices g =
     (\<Union>(n, t) \<in> set (toplevels g). classRefs t) \<union> (\<Union>e \<in> set (classes g). entryRefs e)"

text \<open>A redirect chain that ends at a live class: every index on it lies in the arena.\<close>

inductive endsAtClass :: "Entry list \<Rightarrow> int \<Rightarrow> bool" for cs :: "Entry list" where
  live: "seq_index i cs = Some (Class cd) \<Longrightarrow> endsAtClass cs i"
| hop: "seq_index i cs = Some (Redirect j) \<Longrightarrow> endsAtClass cs j \<Longrightarrow> endsAtClass cs i"

code_pred endsAtClass .

definition arenaIntegrity :: "IRGraph \<Rightarrow> bool" where
  "arenaIntegrity g \<longleftrightarrow> (\<forall>i \<in> usedIndices g. endsAtClass (classes g) i)"

inductive_set reachable :: "IRGraph \<Rightarrow> int set" for g :: IRGraph where
  toplevel: "(n, t) \<in> set (toplevels g) \<Longrightarrow> i \<in> classRefs t \<Longrightarrow> i \<in> reachable g"
| redirect: "i \<in> reachable g \<Longrightarrow> seq_index i (classes g) = Some (Redirect j) \<Longrightarrow> j \<in> reachable g"
| property: "i \<in> reachable g \<Longrightarrow> seq_index i (classes g) = Some (Class cd)
     \<Longrightarrow> (p, t) \<in> set (properties cd) \<Longrightarrow> j \<in> classRefs t \<Longrightarrow> j \<in> reachable g"

inductive endsIn :: "Entry list \<Rightarrow> int \<Rightarrow> nat \<Rightarrow> int \<Rightarrow> IRClassData \<Rightarrow> bool"
  for cs :: "Entry list" where
  here: "seq_index i cs = Some (Class cd) \<Longrightarrow> endsIn cs i 1 i cd"
| there: "seq_index i cs = Some (Redirect j) \<Longrightarrow> endsIn cs j n k cd \<Longrightarrow> endsIn cs i (Suc n) k cd"

subsection \<open>Property slots and the names they give\<close>

text \<open>
  \<open>namedBy sing p t i nm\<close>: from a property named \<open>p\<close> of type \<open>t\<close>, class \<open>i\<close> is reached
  under the name \<open>nm\<close>, going through array and map element types (each taking the singular
  form) and through the class slot of a union. \<open>liveSlots\<close> are the property slots of the
  live classes of a graph.
\<close>

inductive namedBy :: "(string \<Rightarrow> string) \<Rightarrow> string \<Rightarrow> IRType \<Rightarrow> int \<Rightarrow> string \<Rightarrow> bool"
  for sing :: "string \<Rightarrow> string" where
  direct: "namedBy sing p (IRClass i) i p"
| array: "namedBy sing (sing p) a i nm \<Longrightarrow> namedBy sing p (IRArray a) i nm"
| map: "namedBy sing (sing p) m i nm \<Longrightarrow> namedBy sing p (IRMap m) i nm"
| unionClass: "classRef u = Some i \<Longrightarrow> namedBy sing p (IRUnion u) i p"

definition liveSlots :: "IRGraph \<Rightarrow> (string \<times> IRType) set" where
  "liveSlots g = {(p, t). \<exists>cd. Class cd \<in> set (classes g) \<and> (p, t) \<in> set (properties cd)}"

subsection \<open>The canonical listing\<close>

text \<open>
  The canonical listing of a union: the kinds it holds in the order Null, Integer, Double,
  Bool, String, Array, Class, Map. It is the yardstick the two iterators are compared with.
\<close>

definition kinds :: "IRUnionRep \<Rightarrow> IRType list" where
  "kinds u =
     (if isInPrimitives (primitives u) irUnion_Null then [IRNull] else []) @
     (if isInNumber (primitives u) irUnion_Integer then [IRInteger] else []) @
     (if isInNumber (primitives u) irUnion_Double then [IRDouble] else []) @
     (if isInPrimitives (primitives u) irUnion_Bool then [IRBool] else []) @
     (if isInPrimitives (primitives u) irUnion_String then [IRString] else []) @
     (case arrayType u of Some a \<Rightarrow> [IRArray a] | None \<Rightarrow> []) @
     (case classRef u of Some i \<Rightarrow> [IRClass i] | None \<Rightarrow> []) @
     (case mapType u of Some m \<Rightarrow> [IRMap m] | None \<Rightarrow> [])"

text \<open>Running a callback over a list, one call after the other.\<close>

fun forM' :: "'a list \<Rightarrow> ('a \<Rightarrow> (unit, 's) m) \<Rightarrow> (unit, 's) m" where
  "forM' [] f = pure_m ()"
| "forM' (x # xs) f = then_m (f x) (forM' xs f)"

section \<open>Properties of unions\<close>

subsection \<open>The monad\<close>

lemma pure_m_apply: "pure_m a s = (a, s)"
  by (simp add: pure_m_def)

lemma bind_m_apply: "bind_m x k s = (case x s of (a, s') \<Rightarrow> k a s')"
  by (simp add: bind_m_def)

lemma then_m_apply: "then_m x y s = y (snd (x s))"
  by (simp add: then_m_def bind_m_def split: prod.splits)

lemma when_m_apply: "when_m c x s = (if c then x s else ((), s))"
  by (simp add: when_m_def pure_m_def)

lemmas m_simps = pure_m_apply bind_m_apply then_m_apply when_m_apply

lemma mapPrimitive_pure:
  "mapPrimitive (\<lambda>t. pure_m (g t)) p pr b t l s = ((if pr p b then [g t] else []) @ l, s)"
  by (simp add: mapPrimitive_def m_simps)

lemma mapGeneral_pure:
  "mapGeneral (\<lambda>t. pure_m (g t)) x conv l s =
     ((case x of Some y \<Rightarrow> [g (conv y)] | None \<Rightarrow> []) @ l, s)"
  by (cases x) (simp_all add: m_simps)

lemma forM'_append: "forM' (xs @ ys) f s = forM' ys f (snd (forM' xs f s))"
  by (induction xs arbitrary: s) (simp_all add: m_simps)

lemma forM'_log: "snd (forM' xs (\<lambda>t s. ((), s @ [t])) acc) = acc @ xs"
  by (induction xs arbitrary: acc) (simp_all add: m_simps)

subsection \<open>Both iterators follow the canonical listing\<close>

text \<open>
  \<open>mapUnion\<close> returns the images of the canonical listing, in that order; \<open>mapUnionM\<close>
  builds the list from the back, so a callback with an effect is called in the reverse order.
\<close>

lemma mapUnion_kinds: "mapUnion g u = map g (kinds u)"
  unfolding mapUnion_def mapUnionM_def kinds_def
  by (simp add: m_simps mapPrimitive_pure mapGeneral_pure split: option.splits)

lemma unionToList_kinds: "unionToList u = kinds u"
  by (simp add: unionToList_def mapUnion_kinds)

lemma mapUnionM_calls: "snd (mapUnionM (\<lambda>t s. (g t, s @ [t])) u []) = rev (kinds u)"
  unfolding mapUnionM_def kinds_def mapPrimitive_def
  by (cases "mapType u"; cases "classRef u"; cases "arrayType u") (simp_all add: m_simps)

lemma forUnion_kinds: "forUnion' u f s = forM' (kinds u) f s"
  unfolding forUnion'_def kinds_def Let_def
  by (simp add: m_simps forM'_append prod_eq_iff split: option.splits)

lemma visited_kinds: "visited u = kinds u"
  by (simp add: visited_def forUnion_kinds forM'_log)

lemma distinct_kinds: "distinct (kinds u)"
  by (simp add: kinds_def split: option.splits)

lemma enum_not_in_kinds: "IREnum ed \<notin> set (kinds u)"
  by (simp add: kinds_def split: option.splits)

subsection \<open>Bits\<close>

lemma null_bit_iff: "((p::32 word) AND 2 \<noteq> 0) = bit p 1"
proof -
  have "(p AND 2 = 0) = (\<not> bit p 1)"
    by (simp add: and_exp_eq_0_iff_not_bit[of p 1, simplified])
  then show ?thesis by simp
qed

lemma xor_clears_null: "bit (p::32 word) 1 \<Longrightarrow> 2 XOR p = p AND NOT 2"
  by (rule bit_word_eqI) (auto simp add: bit_simps bit_2_iff)

lemma number_bits_both:
  assumes "(p::32 word) AND irUnion_Double = irUnion_Double"
  shows "isInNumber p irUnion_Double" and "\<not> isInNumber p irUnion_Integer"
  using assms
  by (simp_all add: isInNumber_def irUnion_Number_def irUnion_Double_def irUnion_Integer_def
      and.commute)

lemma only_double_same:
  assumes "(p::32 word) AND irUnion_Double = irUnion_Double"
  shows "p AND NOT irUnion_Number OR irUnion_Double = p"
proof -
  have "p AND NOT irUnion_Double OR p AND irUnion_Double = p"
    by (rule bit_word_eqI) (auto simp add: bit_simps)
  with assms show ?thesis by (simp add: irUnion_Number_def)
qed

subsection \<open>Iteration order\<close>

text \<open>
  C1. Iterating a union with \<open>forUnion_\<close>, or listing it with \<open>unionToList\<close>, should visit
  every kind present once, in the order Null, Integer, Double, Bool, String, Array, Class,
  Map, Enum, the enum last. On the union that holds Null, Integer and an enum, both visit
  Null and Integer only: the enum, which \<open>isUnionMember\<close> finds in the union, is never
  visited.
\<close>

theorem forUnion_skips_enum:
  "visited (IRUnionRep (Inferred {}) (irUnion_Null OR irUnion_Integer) None None None
      (Some \<lparr> e_names = Inferred {''color''}, e_values = {''red'', ''green''} \<rparr>))
     = [IRNull, IRInteger]
   \<and> unionToList (IRUnionRep (Inferred {}) (irUnion_Null OR irUnion_Integer) None None None
      (Some \<lparr> e_names = Inferred {''color''}, e_values = {''red'', ''green''} \<rparr>))
     = [IRNull, IRInteger]
   \<and> isUnionMember (IREnum \<lparr> e_names = Inferred {''color''}, e_values = {''red'', ''green''} \<rparr>)
     (IRUnionRep (Inferred {}) (irUnion_Null OR irUnion_Integer) None None None
      (Some \<lparr> e_names = Inferred {''color''}, e_values = {''red'', ''green''} \<rparr>))"
  by (simp add: visited_kinds unionToList_kinds kinds_def isInPrimitives_def isInNumber_def
      irUnion_Null_def irUnion_String_def irUnion_Integer_def irUnion_Double_def
      irUnion_Number_def irUnion_Bool_def)

subsection \<open>Nullable unions\<close>

text \<open>
  What \<open>nullableFromUnion\<close> computes: with the Null bit set, the only entry of the
  canonical listing of the union without Null, if that listing has exactly one entry.
\<close>

lemma nullableFromUnion_kinds:
  "nullableFromUnion u =
     (if primitives u AND irUnion_Null \<noteq> 0 then
        (case kinds (IRUnionRep (u_names u) (irUnion_Null XOR primitives u)
                (arrayType u) (classRef u) (mapType u) (enumData u)) of
           [x] \<Rightarrow> Some x
         | _ \<Rightarrow> None)
      else None)"
  by (simp add: nullableFromUnion_def removeNullFromUnion_def unionToList_kinds and.commute)

text \<open>
  C2. \<open>nullableFromUnion u\<close> should be \<open>Just t\<close> exactly when \<open>u\<close> holds Null and one other
  kind \<open>t\<close>, the enum slot included. On the union of Null and an enum it answers \<open>Nothing\<close>,
  and on the union of Null, Integer and an enum it answers \<open>Just IRInteger\<close>.
\<close>

theorem nullableFromUnion_misses_enum:
  "nullableFromUnion (IRUnionRep (Inferred {}) irUnion_Null None None None
      (Some \<lparr> e_names = Inferred {''color''}, e_values = {''red'', ''green''} \<rparr>)) = None
   \<and> nullableFromUnion (IRUnionRep (Inferred {}) (irUnion_Null OR irUnion_Integer) None None None
      (Some \<lparr> e_names = Inferred {''color''}, e_values = {''red'', ''green''} \<rparr>)) = Some IRInteger"
  by (simp add: nullableFromUnion_def removeNullFromUnion_def unionToList_kinds kinds_def
      isInPrimitives_def isInNumber_def
      irUnion_Null_def irUnion_String_def irUnion_Integer_def irUnion_Double_def
      irUnion_Number_def irUnion_Bool_def)

subsection \<open>Integer and Double\<close>

text \<open>
  C3. A union whose bit set has both the Integer and the Double bits emits \<open>IRDouble\<close> and
  not \<open>IRInteger\<close>, from \<open>forUnion_\<close> and from \<open>unionToList\<close>; \<open>IRInteger\<close> is not a
  member and \<open>IRDouble\<close> is; and it emits what the union with the number bits of Double
  alone emits.
\<close>

theorem integer_and_double_emit_double:
  assumes "primitives u AND irUnion_Integer = irUnion_Integer"
    and "primitives u AND irUnion_Double = irUnion_Double"
  shows "IRDouble \<in> set (visited u) \<and> IRInteger \<notin> set (visited u)
    \<and> IRDouble \<in> set (unionToList u) \<and> IRInteger \<notin> set (unionToList u)
    \<and> \<not> isUnionMember IRInteger u \<and> isUnionMember IRDouble u
    \<and> visited u = visited (IRUnionRep (u_names u)
          (primitives u AND NOT irUnion_Number OR irUnion_Double)
          (arrayType u) (classRef u) (mapType u) (enumData u))
    \<and> unionToList u = unionToList (IRUnionRep (u_names u)
          (primitives u AND NOT irUnion_Number OR irUnion_Double)
          (arrayType u) (classRef u) (mapType u) (enumData u))"
proof -
  note n = number_bits_both [OF assms(2)]
  have "IRDouble \<in> set (kinds u)" "IRInteger \<notin> set (kinds u)"
    using n by (simp_all add: kinds_def split: option.splits)
  moreover have "\<not> isUnionMember IRInteger u" "isUnionMember IRDouble u"
    using n by simp_all
  moreover have "IRUnionRep (u_names u) (primitives u AND NOT irUnion_Number OR irUnion_Double)
          (arrayType u) (classRef u) (mapType u) (enumData u) = u"
    by (simp add: only_double_same [OF assms(2)])
  ultimately show ?thesis
    by (simp add: visited_kinds unionToList_kinds)
qed

theorem integer_and_double_emit_double_witness:
  "(14::32 word) AND irUnion_Integer = irUnion_Integer
   \<and> (14::32 word) AND irUnion_Double = irUnion_Double
   \<and> visited (IRUnionRep (Inferred {}) 14 None None None None) = [IRNull, IRDouble]
   \<and> unionToList (IRUnionRep (Inferred {}) 14 None None None None) = [IRNull, IRDouble]
   \<and> \<not> isUnionMember IRInteger (IRUnionRep (Inferred {}) 14 None None None None)
   \<and> isUnionMember IRDouble (IRUnionRep (Inferred {}) 14 None None None None)
   \<and> visited (IRUnionRep (Inferred {}) 14 None None None None)
       = visited (IRUnionRep (Inferred {}) (14 AND NOT irUnion_Number OR irUnion_Double)
           None None None None)"
proof -
  have h1: "primitives (IRUnionRep (Inferred {}) 14 None None None None) AND irUnion_Integer
      = irUnion_Integer"
    by (simp add: irUnion_Integer_def)
  have h2: "primitives (IRUnionRep (Inferred {}) 14 None None None None) AND irUnion_Double
      = irUnion_Double"
    by (simp add: irUnion_Integer_def irUnion_Double_def)
  have k: "kinds (IRUnionRep (Inferred {}) 14 None None None None) = [IRNull, IRDouble]"
    by (simp add: kinds_def isInPrimitives_def isInNumber_def
      irUnion_Null_def irUnion_String_def irUnion_Integer_def irUnion_Double_def
      irUnion_Number_def irUnion_Bool_def)
  show ?thesis
    using integer_and_double_emit_double [OF h1 h2] h1 h2 k
    by (simp add: visited_kinds unionToList_kinds)
qed

subsection \<open>Removing Null\<close>

text \<open>
  C8. \<open>removeNullFromUnion u\<close> reports \<open>hasNull\<close> exactly when the Null bit of \<open>u\<close> is set;
  the union it returns has the Null bit cleared and every other primitive bit, the names
  and the array, class, map and enum slots as in \<open>u\<close>; without a Null bit it returns \<open>u\<close>.
\<close>

theorem removeNullFromUnion_frame:
  "hasNull (removeNullFromUnion u) = (primitives u AND irUnion_Null \<noteq> 0)
   \<and> primitives (nonNullUnion (removeNullFromUnion u)) AND irUnion_Null = 0
   \<and> primitives (nonNullUnion (removeNullFromUnion u)) = primitives u AND NOT irUnion_Null
   \<and> u_names (nonNullUnion (removeNullFromUnion u)) = u_names u
   \<and> arrayType (nonNullUnion (removeNullFromUnion u)) = arrayType u
   \<and> classRef (nonNullUnion (removeNullFromUnion u)) = classRef u
   \<and> mapType (nonNullUnion (removeNullFromUnion u)) = mapType u
   \<and> enumData (nonNullUnion (removeNullFromUnion u)) = enumData u
   \<and> (primitives u AND irUnion_Null = 0 \<longrightarrow> nonNullUnion (removeNullFromUnion u) = u)"
proof (cases "primitives u AND irUnion_Null = 0")
  case True
  then have c: "irUnion_Null AND primitives u = 0"
    by (simp add: and.commute)
  from True have "\<not> bit (primitives u) 1"
    using null_bit_iff [of "primitives u"] by (simp add: irUnion_Null_def)
  then have "primitives u AND NOT irUnion_Null = primitives u"
    unfolding irUnion_Null_def by (intro bit_word_eqI) (auto simp add: bit_simps bit_2_iff)
  then show ?thesis
    using True c by (simp add: removeNullFromUnion_def)
next
  case False
  then have c: "irUnion_Null AND primitives u \<noteq> 0"
    by (simp add: and.commute)
  from False have b: "bit (primitives u) 1"
    by (simp add: irUnion_Null_def null_bit_iff)
  have x: "irUnion_Null XOR primitives u = primitives u AND NOT irUnion_Null"
    using xor_clears_null [OF b] by (simp add: irUnion_Null_def)
  have z: "(primitives u AND NOT irUnion_Null) AND irUnion_Null = 0"
    by (simp add: and.assoc)
  show ?thesis
    using False c by (simp add: removeNullFromUnion_def x z)
qed

theorem removeNullFromUnion_frame_witness:
  "(32::32 word) AND irUnion_Null = 0
   \<and> nonNullUnion (removeNullFromUnion (IRUnionRep (Given {''a''}) 32 None (Some 3) None None))
       = IRUnionRep (Given {''a''}) 32 None (Some 3) None None
   \<and> \<not> hasNull (removeNullFromUnion (IRUnionRep (Given {''a''}) 32 None (Some 3) None None))
   \<and> hasNull (removeNullFromUnion (IRUnionRep (Given {''a''}) 34 None (Some 3) None None))
   \<and> primitives (nonNullUnion
         (removeNullFromUnion (IRUnionRep (Given {''a''}) 34 None (Some 3) None None))) = 32"
  using removeNullFromUnion_frame [of "IRUnionRep (Given {''a''}) 32 None (Some 3) None None"]
    removeNullFromUnion_frame [of "IRUnionRep (Given {''a''}) 34 None (Some 3) None None"]
  by (simp add: irUnion_Null_def)

section \<open>Properties of the class arena\<close>

subsection \<open>Following redirects\<close>

lemma seq_index_Some: "seq_index i xs = Some x \<Longrightarrow> 0 \<le> i \<and> i < int (length xs) \<and> x \<in> set xs"
  by (auto simp add: seq_index_def split: if_splits)

lemma reachable_used: "i \<in> reachable g \<Longrightarrow> i \<in> usedIndices g"
proof (induction rule: reachable.induct)
  case (toplevel n t i)
  then show ?case by (auto simp add: usedIndices_def)
next
  case (redirect i j)
  from seq_index_Some [OF redirect(2)] have "Redirect j \<in> set (classes g)" by simp
  then have "j \<in> (\<Union>e \<in> set (classes g). entryRefs e)" by force
  then show ?case by (simp add: usedIndices_def)
next
  case (property i cd p t j)
  from seq_index_Some [OF property(2)] have "Class cd \<in> set (classes g)" by simp
  moreover have "j \<in> entryRefs (Class cd)" using property(3,4) by auto
  ultimately have "j \<in> (\<Union>e \<in> set (classes g). entryRefs e)" by blast
  then show ?case by (simp add: usedIndices_def)
qed

lemma endsAtClass_endsIn: "endsAtClass cs i \<Longrightarrow> \<exists>n k cd. endsIn cs i n k cd"
  by (induction rule: endsAtClass.induct) (blast intro: endsIn.intros)+

lemma endsIn_steps_unique: "endsIn cs i n k cd \<Longrightarrow> endsIn cs i n' k' cd' \<Longrightarrow> n = n'"
proof (induction arbitrary: n' k' cd' rule: endsIn.induct)
  case (here i cd)
  from here(2) here(1) show ?case by (cases rule: endsIn.cases) simp_all
next
  case (there i j n k cd)
  from there(4) there(1) obtain m where "n' = Suc m" "endsIn cs j m k' cd'"
    by (cases rule: endsIn.cases) simp_all
  with there.IH show ?case by blast
qed

lemma endsIn_followIndex:
  "endsIn (classes g) i n k cd \<Longrightarrow>
     followIndex n g i = Some (Inr (k, cd)) \<and> seq_index k (classes g) = Some (Class cd)"
  by (induction rule: endsIn.induct) simp_all

lemma followIndex_more_fuel:
  "followIndex n g i = Some r \<Longrightarrow> followIndex (n + m) g i = Some r"
proof (induction n arbitrary: i)
  case 0
  then show ?case by simp
next
  case (Suc n)
  then show ?case
    by (auto split: option.splits Entry.splits)
qed

lemma endsIn_chain:
  "endsIn cs i n k cd \<Longrightarrow>
     \<exists>S. finite S \<and> card S = n \<and> S \<subseteq> {0..<int (length cs)}
       \<and> (\<forall>x \<in> S. \<exists>m k' cd'. m \<le> n \<and> endsIn cs x m k' cd')"
proof (induction rule: endsIn.induct)
  case (here i cd)
  have "endsIn cs i 1 i cd" using here by (rule endsIn.here)
  moreover have "0 \<le> i \<and> i < int (length cs)" using seq_index_Some [OF here] by simp
  ultimately show ?case
    by (intro exI [of _ "{i}"]) auto
next
  case (there i j n k cd)
  then obtain S where S: "finite S" "card S = n" "S \<subseteq> {0..<int (length cs)}"
    "\<forall>x \<in> S. \<exists>m k' cd'. m \<le> n \<and> endsIn cs x m k' cd'"
    by blast
  have i: "endsIn cs i (Suc n) k cd" using there(1,2) by (rule endsIn.there)
  have "i \<notin> S"
  proof
    assume "i \<in> S"
    with S(4) obtain m k' cd' where "m \<le> n" "endsIn cs i m k' cd'" by blast
    with endsIn_steps_unique [OF i] show False by fastforce
  qed
  with S(1,2) have c: "card (insert i S) = Suc n" by simp
  have b: "0 \<le> i \<and> i < int (length cs)" using seq_index_Some [OF there(1)] by simp
  have "\<forall>x \<in> insert i S. \<exists>m k' cd'. m \<le> Suc n \<and> endsIn cs x m k' cd'"
    using S(4) i by (metis insert_iff le_SucI order_refl)
  with S(1,3) c b show ?case
    by (intro exI [of _ "insert i S"]) auto
qed

lemma endsIn_bound: "endsIn cs i n k cd \<Longrightarrow> n \<le> length cs"
proof -
  assume "endsIn cs i n k cd"
  from endsIn_chain [OF this] obtain S where "finite S" "card S = n" "S \<subseteq> {0..<int (length cs)}"
    by blast
  then have "n \<le> card {0..<int (length cs)}"
    by (metis card_mono finite_atLeastLessThan_int)
  then show ?thesis by simp
qed

text \<open>
  C4. In a graph whose arena has integrity (every index in use starts a redirect chain that
  stays in the arena and ends at a live class), \<open>followIndex\<close> on an index reachable from
  the top levels returns within as many lookups as the arena has entries, and it returns a
  pair \<open>(j, cd)\<close> where entry \<open>j\<close> of the arena is \<open>Class cd\<close>.
\<close>

theorem followIndex_terminates:
  assumes "arenaIntegrity g" and "i \<in> reachable g"
  shows "\<exists>j cd. followIndex (length (classes g)) g i = Some (Inr (j, cd))
           \<and> seq_index j (classes g) = Some (Class cd)"
proof -
  from assms have "endsAtClass (classes g) i"
    by (simp add: arenaIntegrity_def reachable_used)
  then obtain n k cd where e: "endsIn (classes g) i n k cd"
    using endsAtClass_endsIn by blast
  from endsIn_bound [OF e] obtain m where "length (classes g) = n + m"
    using le_Suc_ex by blast
  with endsIn_followIndex [OF e] followIndex_more_fuel [of n g i "Inr (k, cd)" m]
  show ?thesis by auto
qed

theorem followIndex_terminates_witness:
  "arenaIntegrity
      \<lparr> classes = [Redirect 2, NoType, Redirect 3,
          Class \<lparr> c_names = Inferred {''top''}, properties = [(''next'', IRArray (IRClass 2))] \<rparr>],
        toplevels = [(''top'', IRClass 0)] \<rparr>
   \<and> 0 \<in> reachable
      \<lparr> classes = [Redirect 2, NoType, Redirect 3,
          Class \<lparr> c_names = Inferred {''top''}, properties = [(''next'', IRArray (IRClass 2))] \<rparr>],
        toplevels = [(''top'', IRClass 0)] \<rparr>
   \<and> followIndex 4
      \<lparr> classes = [Redirect 2, NoType, Redirect 3,
          Class \<lparr> c_names = Inferred {''top''}, properties = [(''next'', IRArray (IRClass 2))] \<rparr>],
        toplevels = [(''top'', IRClass 0)] \<rparr> 0
     = Some (Inr (3, \<lparr> c_names = Inferred {''top''},
                       properties = [(''next'', IRArray (IRClass 2))] \<rparr>))"
proof -
  let ?cd = "\<lparr> c_names = Inferred {''top''}, properties = [(''next'', IRArray (IRClass 2))] \<rparr>"
  let ?cs = "[Redirect 2, NoType, Redirect 3, Class ?cd]"
  let ?g = "\<lparr> classes = ?cs, toplevels = [(''top'', IRClass 0)] \<rparr>"
  have e3: "endsAtClass ?cs 3"
    by (rule endsAtClass.live [of _ _ ?cd]) (simp add: seq_index_def)
  have e2: "endsAtClass ?cs 2"
    by (rule endsAtClass.hop [OF _ e3]) (simp add: seq_index_def)
  have e0: "endsAtClass ?cs 0"
    by (rule endsAtClass.hop [OF _ e2]) (simp add: seq_index_def)
  have u: "usedIndices ?g = {0, 2, 3}"
    by (auto simp add: usedIndices_def)
  have h1: "arenaIntegrity ?g"
    using e0 e2 e3 by (simp add: arenaIntegrity_def u)
  have h2: "0 \<in> reachable ?g"
    by (rule reachable.toplevel [of "''top''" "IRClass 0"]) simp_all
  from followIndex_terminates [OF h1 h2]
  obtain j cd where "followIndex (length (classes ?g)) ?g 0 = Some (Inr (j, cd))" by blast
  moreover have "followIndex (length (classes ?g)) ?g 0 = Some (Inr (3, ?cd))"
    by (simp add: seq_index_def)
  moreover have "length (classes ?g) = 4" by simp
  ultimately have "followIndex 4 ?g 0 = Some (Inr (3, ?cd))" by metis
  with h1 h2 show ?thesis by blast
qed

subsection \<open>Joined maps\<close>

lemma unionWith_None: "unionWith f a b k = None \<longleftrightarrow> a k = None \<and> b k = None"
  by (simp add: unionWith_def split: option.splits)

lemma combine_None: "combine xs k = None \<longleftrightarrow> (\<forall>x \<in> set xs. x k = None)"
  by (induction xs) (auto simp add: combine_def unionWith_None)

lemma combine_Some:
  "combine xs k = Some S \<Longrightarrow> S = \<Union>{T. \<exists>x \<in> set xs. x k = Some T}"
proof (induction xs arbitrary: S)
  case Nil
  then show ?case by (simp add: combine_def)
next
  case (Cons x xs)
  have c: "combine (x # xs) = unionWith (\<union>) x (combine xs)"
    by (simp add: combine_def)
  show ?case
  proof (cases "x k")
    case None
    with Cons.prems c have "combine xs k = Some S" by (simp add: unionWith_def)
    from Cons.IH [OF this] None show ?thesis by auto
  next
    case xk: (Some A)
    show ?thesis
    proof (cases "combine xs k")
      case None
      then have "\<forall>y \<in> set xs. y k = None" by (simp add: combine_None)
      moreover from Cons.prems c xk None have "S = A" by (simp add: unionWith_def)
      ultimately show ?thesis using xk by auto
    next
      case (Some B)
      from Cons.IH [OF this] have B: "B = \<Union>{T. \<exists>y \<in> set xs. y k = Some T}" .
      from Cons.prems c xk Some have "S = A \<union> B" by (simp add: unionWith_def)
      with B xk show ?thesis by auto
    qed
  qed
qed

lemma combine_mem:
  "combine xs k = Some S \<Longrightarrow> nm \<in> S \<longleftrightarrow> (\<exists>x \<in> set xs. \<exists>T. x k = Some T \<and> nm \<in> T)"
  by (drule combine_Some) auto

lemma gatherFromType_None: "gatherFromType sing p t k = None \<longleftrightarrow> k \<notin> classRefs t"
proof (induction sing p t rule: gatherFromType.induct)
  case (4 singular name ns ps a c m ed)
  then show ?case
    by (cases a; cases c; cases m) (auto simp add: combine_None)
qed simp_all

lemma gatherFromType_names:
  "gatherFromType sing p t k = Some S \<Longrightarrow> nm \<in> S \<Longrightarrow> \<exists>n. nm = (sing ^^ n) p"
proof (induction sing p t arbitrary: S rule: gatherFromType.induct)
  case (1 singular name i)
  then have "nm = name" by (auto split: if_splits)
  then show ?case by (intro exI [of _ 0]) simp
next
  case (2 singular name a)
  then obtain n where "nm = (singular ^^ n) (singular name)" by auto
  then show ?case by (intro exI [of _ "Suc n"]) (simp add: funpow_swap1)
next
  case (3 singular name m)
  then obtain n where "nm = (singular ^^ n) (singular name)" by auto
  then show ?case by (intro exI [of _ "Suc n"]) (simp add: funpow_swap1)
next
  case (4 singular name ns ps a c m ed)
  let ?fa = "case a of None \<Rightarrow> Map.empty | Some t \<Rightarrow> gatherFromType singular name t"
  let ?fm = "case m of None \<Rightarrow> Map.empty | Some t \<Rightarrow> gatherFromType singular name t"
  let ?fc = "case c of None \<Rightarrow> Map.empty | Some i \<Rightarrow> gatherFromType singular name (IRClass i)"
  from "4.prems"(1) have "combine [?fa, ?fm, ?fc] k = Some S" by simp
  from combine_mem [OF this, of nm] "4.prems"(2)
  obtain x T where x: "x \<in> {?fa, ?fm, ?fc}" "x k = Some T" "nm \<in> T" by auto
  then consider "x = ?fa" | "x = ?fm" | "x = ?fc" by blast
  then show ?case
  proof cases
    case 1
    with x obtain t where "a = Some t" "gatherFromType singular name t k = Some T"
      by (cases a) simp_all
    with "4.IH"(1) x(3) show ?thesis by blast
  next
    case 2
    with x obtain t where "m = Some t" "gatherFromType singular name t k = Some T"
      by (cases m) simp_all
    with "4.IH"(2) x(3) show ?thesis by blast
  next
    case 3
    with x obtain i where "c = Some i" "gatherFromType singular name (IRClass i) k = Some T"
      by (cases c) simp_all
    with "4.IH"(3) x(3) show ?thesis by blast
  qed
qed simp_all

lemma namedBy_gathered:
  "namedBy sing p t k nm \<Longrightarrow> \<exists>S. gatherFromType sing p t k = Some S \<and> nm \<in> S"
proof (induction rule: namedBy.induct)
  case (unionClass u i p)
  obtain ns ps a c m ed where u: "u = IRUnionRep ns ps a c m ed" by (cases u)
  let ?fa = "case a of None \<Rightarrow> Map.empty | Some t \<Rightarrow> gatherFromType sing p t"
  let ?fm = "case m of None \<Rightarrow> Map.empty | Some t \<Rightarrow> gatherFromType sing p t"
  let ?fc = "case c of None \<Rightarrow> Map.empty | Some i \<Rightarrow> gatherFromType sing p (IRClass i)"
  from unionClass u have fc: "?fc i = Some {p}" by simp
  then have "combine [?fa, ?fm, ?fc] i \<noteq> None"
    by (simp add: combine_None)
  then obtain S where S: "combine [?fa, ?fm, ?fc] i = Some S" by blast
  from combine_mem [OF S, of p] fc have "p \<in> S" by auto
  with S u show ?case by simp
qed simp_all

lemma length_mapWithIndex: "length (mapWithIndex f xs) = length xs"
  by (simp add: mapWithIndex_def)

lemma nth_mapWithIndex: "i < length xs \<Longrightarrow> mapWithIndex f xs ! i = f (int i) (xs ! i)"
  by (simp add: mapWithIndex_def nth_enumerate_eq)

lemma set_mapWithIndex: "set (mapWithIndex f xs) = {f (int i) (xs ! i) | i. i < length xs}"
proof -
  have "set (mapWithIndex f xs) = {mapWithIndex f xs ! i | i. i < length (mapWithIndex f xs)}"
    by (rule set_conv_nth)
  also have "\<dots> = {f (int i) (xs ! i) | i. i < length xs}"
    by (simp add: length_mapWithIndex nth_mapWithIndex cong: rev_conj_cong)
  finally show ?thesis .
qed

lemma set_mapClasses_const:
  "set (mapClasses (\<lambda>_. h) g) = {h cd | cd. Class cd \<in> set (classes g)}"
proof -
  have m: "set (mapClasses_mapper (\<lambda>_. h) i e) = {h cd | cd. e = Class cd}" for i e
    by (cases e) simp_all
  have "set (mapClasses (\<lambda>_. h) g)
      = (\<Union>i \<in> {i. i < length (classes g)}. {h cd | cd. classes g ! i = Class cd})"
    by (auto simp add: mapClasses_def set_mapWithIndex m)
  also have "\<dots> = {h cd | cd. Class cd \<in> set (classes g)}"
    by (auto simp add: in_set_conv_nth)
  finally show ?thesis .
qed

lemma gatherFromClassData_const:
  "gatherFromClassData sing = (\<lambda>_. gatherFromClassData sing 0)"
  by (intro ext) (simp add: gatherFromClassData_def)

lemma gatherFromClassData_None:
  "gatherFromClassData sing i cd k = None
     \<longleftrightarrow> (\<forall>p t. (p, t) \<in> set (properties cd) \<longrightarrow> k \<notin> classRefs t)"
  by (auto simp add: gatherFromClassData_def combine_None gatherFromType_None)

lemma gatherFromClassData_mem:
  assumes "gatherFromClassData sing i cd k = Some S"
  shows "nm \<in> S \<longleftrightarrow>
    (\<exists>p t T. (p, t) \<in> set (properties cd) \<and> gatherFromType sing p t k = Some T \<and> nm \<in> T)"
proof -
  from assms have "combine (map (\<lambda>(n, t). gatherFromType sing n t) (properties cd)) k = Some S"
    by (simp add: gatherFromClassData_def)
  from combine_mem [OF this, of nm] show ?thesis by fastforce
qed

lemma newNames_None:
  "combine (mapClasses (gatherFromClassData sing) g) k = None
     \<longleftrightarrow> (\<forall>p t. (p, t) \<in> liveSlots g \<longrightarrow> k \<notin> classRefs t)"
proof -
  have "combine (mapClasses (gatherFromClassData sing) g) k = None
     \<longleftrightarrow> (\<forall>cd. Class cd \<in> set (classes g) \<longrightarrow> gatherFromClassData sing 0 cd k = None)"
    by (subst gatherFromClassData_const) (auto simp add: combine_None set_mapClasses_const)
  also have "\<dots> \<longleftrightarrow> (\<forall>p t. (p, t) \<in> liveSlots g \<longrightarrow> k \<notin> classRefs t)"
    by (auto simp add: gatherFromClassData_None liveSlots_def)
  finally show ?thesis .
qed

lemma newNames_mem:
  assumes "combine (mapClasses (gatherFromClassData sing) g) k = Some S"
  shows "nm \<in> S \<longleftrightarrow>
    (\<exists>p t T. (p, t) \<in> liveSlots g \<and> gatherFromType sing p t k = Some T \<and> nm \<in> T)"
proof -
  from assms
  have "combine (mapClasses (\<lambda>_. gatherFromClassData sing 0) g) k = Some S"
    by (subst (asm) gatherFromClassData_const)
  from combine_mem [OF this, of nm]
  have "nm \<in> S \<longleftrightarrow> (\<exists>cd T. Class cd \<in> set (classes g)
           \<and> gatherFromClassData sing 0 cd k = Some T \<and> nm \<in> T)"
    by (auto simp add: set_mapClasses_const)
  also have "\<dots> \<longleftrightarrow>
    (\<exists>p t T. (p, t) \<in> liveSlots g \<and> gatherFromType sing p t k = Some T \<and> nm \<in> T)"
  proof
    assume "\<exists>cd T. Class cd \<in> set (classes g)
           \<and> gatherFromClassData sing 0 cd k = Some T \<and> nm \<in> T"
    then obtain cd T where c: "Class cd \<in> set (classes g)"
      "gatherFromClassData sing 0 cd k = Some T" "nm \<in> T" by blast
    from gatherFromClassData_mem [OF c(2), of nm] c(3)
    obtain p t T' where "(p, t) \<in> set (properties cd)" "gatherFromType sing p t k = Some T'"
      "nm \<in> T'" by auto
    with c(1)
    show "\<exists>p t T. (p, t) \<in> liveSlots g \<and> gatherFromType sing p t k = Some T \<and> nm \<in> T"
      by (auto simp add: liveSlots_def)
  next
    assume "\<exists>p t T. (p, t) \<in> liveSlots g \<and> gatherFromType sing p t k = Some T \<and> nm \<in> T"
    then obtain p t T cd where c: "Class cd \<in> set (classes g)" "(p, t) \<in> set (properties cd)"
      "gatherFromType sing p t k = Some T" "nm \<in> T"
      by (auto simp add: liveSlots_def)
    from c(3) have "k \<in> classRefs t"
      using gatherFromType_None [of sing p t k] by simp
    with c(2) have "gatherFromClassData sing 0 cd k \<noteq> None"
      unfolding gatherFromClassData_None by blast
    then obtain U where U: "gatherFromClassData sing 0 cd k = Some U" by blast
    from gatherFromClassData_mem [OF U, of nm] c(2,3,4) have "nm \<in> U" by auto
    with c(1) U show "\<exists>cd T. Class cd \<in> set (classes g)
           \<and> gatherFromClassData sing 0 cd k = Some T \<and> nm \<in> T" by blast
  qed
  finally show ?thesis .
qed

lemma regather_entry:
  assumes "k < length (classes g)"
  shows "classes (regatherClassNames sing g) ! k
     = entryMapper (classMapper (combine (mapClasses (gatherFromClassData sing) g))) (int k)
         (classes g ! k)"
  using assms by (simp add: regatherClassNames_def Let_def mapClassesInSeq_def nth_mapWithIndex)

lemma singular_kids: "singular ''kids'' = ''kid''"
  by (simp add: singular_def stripSuffix_def)

subsection \<open>Regathering class names\<close>

text \<open>
  C5, as the code has it. \<open>regatherClassNames\<close> leaves the top levels, the entries that
  are not live classes, every class's properties and every given name set unchanged. For a
  live class \<open>k\<close> with an inferred name set: when no property slot of a live class mentions
  \<open>Class k\<close> the set stays as it is; otherwise the set is replaced by the regathered names.
  The new set holds the name of every property that reaches \<open>Class k\<close> directly, through
  the class slot of a union, or through array and map element types in their singular
  form; and each name in it is the name of a property whose type mentions \<open>Class k\<close>, with
  \<open>singular\<close> applied some number of times. The names the set had before are not kept.
\<close>

theorem regatherClassNames_regathers:
  assumes "k < length (classes g)" and "classes g ! k = Class cd"
  shows "toplevels (regatherClassNames sing g) = toplevels g
    \<and> length (classes (regatherClassNames sing g)) = length (classes g)
    \<and> (\<forall>j < length (classes g). (\<forall>c. classes g ! j \<noteq> Class c)
          \<longrightarrow> classes (regatherClassNames sing g) ! j = classes g ! j)
    \<and> (\<exists>cd'. classes (regatherClassNames sing g) ! k = Class cd'
        \<and> properties cd' = properties cd
        \<and> (\<forall>s. c_names cd = Given s \<longrightarrow> c_names cd' = Given s)
        \<and> (\<forall>old. c_names cd = Inferred old \<longrightarrow> (\<exists>new. c_names cd' = Inferred new
             \<and> ((\<forall>p t. (p, t) \<in> liveSlots g \<longrightarrow> int k \<notin> classRefs t) \<longrightarrow> new = old)
             \<and> ((\<exists>p t. (p, t) \<in> liveSlots g \<and> int k \<in> classRefs t) \<longrightarrow>
                   (\<forall>p t nm. (p, t) \<in> liveSlots g \<longrightarrow> namedBy sing p t (int k) nm \<longrightarrow> nm \<in> new)
                 \<and> (\<forall>nm \<in> new. \<exists>p t n. (p, t) \<in> liveSlots g \<and> int k \<in> classRefs t
                       \<and> nm = (sing ^^ n) p)))))"
proof -
  let ?N = "combine (mapClasses (gatherFromClassData sing) g)"
  let ?g' = "regatherClassNames sing g"
  have top: "toplevels ?g' = toplevels g"
    by (simp add: regatherClassNames_def Let_def)
  have len: "length (classes ?g') = length (classes g)"
    by (simp add: regatherClassNames_def Let_def mapClassesInSeq_def length_mapWithIndex)
  have frame: "\<forall>j < length (classes g). (\<forall>c. classes g ! j \<noteq> Class c)
          \<longrightarrow> classes ?g' ! j = classes g ! j"
  proof (intro allI impI)
    fix j assume j: "j < length (classes g)" and n: "\<forall>c. classes g ! j \<noteq> Class c"
    from n show "classes ?g' ! j = classes g ! j"
      unfolding regather_entry [OF j] by (cases "classes g ! j") simp_all
  qed
  let ?cd' = "classMapper ?N (int k) cd"
  have e: "classes ?g' ! k = Class ?cd'"
    unfolding regather_entry [OF assms(1)] by (simp add: assms(2))
  have props: "properties ?cd' = properties cd"
    by (simp add: classMapper_def)
  have given: "\<forall>s. c_names cd = Given s \<longrightarrow> c_names ?cd' = Given s"
    by (simp add: classMapper_def)
  have inferred: "\<exists>new. c_names ?cd' = Inferred new
             \<and> ((\<forall>p t. (p, t) \<in> liveSlots g \<longrightarrow> int k \<notin> classRefs t) \<longrightarrow> new = old)
             \<and> ((\<exists>p t. (p, t) \<in> liveSlots g \<and> int k \<in> classRefs t) \<longrightarrow>
                   (\<forall>p t nm. (p, t) \<in> liveSlots g \<longrightarrow> namedBy sing p t (int k) nm \<longrightarrow> nm \<in> new)
                 \<and> (\<forall>nm \<in> new. \<exists>p t n. (p, t) \<in> liveSlots g \<and> int k \<in> classRefs t
                       \<and> nm = (sing ^^ n) p))"
    if old: "c_names cd = Inferred old" for old
  proof (cases "?N (int k)")
    case None
    then have no: "\<forall>p t. (p, t) \<in> liveSlots g \<longrightarrow> int k \<notin> classRefs t"
      by (simp add: newNames_None)
    from None old have "c_names ?cd' = Inferred old"
      by (simp add: classMapper_def)
    with no show ?thesis by blast
  next
    case (Some S)
    then have "?N (int k) \<noteq> None" by simp
    then have some: "\<exists>p t. (p, t) \<in> liveSlots g \<and> int k \<in> classRefs t"
      unfolding newNames_None by blast
    from Some old have n: "c_names ?cd' = Inferred S"
      by (simp add: classMapper_def)
    have lower: "nm \<in> S" if "(p, t) \<in> liveSlots g" "namedBy sing p t (int k) nm" for p t nm
    proof -
      from namedBy_gathered [OF that(2)] obtain T
        where "gatherFromType sing p t (int k) = Some T" "nm \<in> T" by blast
      with that(1) show ?thesis unfolding newNames_mem [OF Some] by blast
    qed
    have upper: "\<exists>p t n. (p, t) \<in> liveSlots g \<and> int k \<in> classRefs t \<and> nm = (sing ^^ n) p"
      if "nm \<in> S" for nm
    proof -
      from that obtain p t T where pt: "(p, t) \<in> liveSlots g"
        "gatherFromType sing p t (int k) = Some T" "nm \<in> T"
        unfolding newNames_mem [OF Some] by blast
      from pt(2) have "int k \<in> classRefs t"
        using gatherFromType_None [of sing p t "int k"] by simp
      moreover from gatherFromType_names [OF pt(2,3)] obtain n where "nm = (sing ^^ n) p" ..
      ultimately show ?thesis using pt(1) by blast
    qed
    from n some lower upper show ?thesis by blast
  qed
  from top len frame e props given inferred show ?thesis by blast
qed

theorem regatherClassNames_regathers_witness:
  "(1::nat) < length (classes
      \<lparr> classes =
          [Class \<lparr> c_names = Given {''Root''},
                   properties = [(''kids'', IRArray (IRClass 1))] \<rparr>,
           Class \<lparr> c_names = Inferred {''old''}, properties = [] \<rparr>],
        toplevels = [(''Root'', IRClass 0)] \<rparr>)
   \<and> (''kids'', IRArray (IRClass 1)) \<in> liveSlots
      \<lparr> classes =
          [Class \<lparr> c_names = Given {''Root''},
                   properties = [(''kids'', IRArray (IRClass 1))] \<rparr>,
           Class \<lparr> c_names = Inferred {''old''}, properties = [] \<rparr>],
        toplevels = [(''Root'', IRClass 0)] \<rparr>
   \<and> namedBy singular ''kids'' (IRArray (IRClass 1)) 1 ''kid''
   \<and> (\<exists>cd'. classes (regatherClassNames singular
      \<lparr> classes =
          [Class \<lparr> c_names = Given {''Root''},
                   properties = [(''kids'', IRArray (IRClass 1))] \<rparr>,
           Class \<lparr> c_names = Inferred {''old''}, properties = [] \<rparr>],
        toplevels = [(''Root'', IRClass 0)] \<rparr>) ! 1 = Class cd'
       \<and> properties cd' = []
       \<and> (\<exists>new. c_names cd' = Inferred new \<and> ''kid'' \<in> new))"
proof -
  let ?g = "\<lparr> classes =
          [Class \<lparr> c_names = Given {''Root''},
                   properties = [(''kids'', IRArray (IRClass 1))] \<rparr>,
           Class \<lparr> c_names = Inferred {''old''}, properties = [] \<rparr>],
        toplevels = [(''Root'', IRClass 0)] \<rparr>"
  have h1: "1 < length (classes ?g)" by simp
  have h2: "classes ?g ! 1 = Class \<lparr> c_names = Inferred {''old''}, properties = [] \<rparr>" by simp
  have h3: "(''kids'', IRArray (IRClass 1)) \<in> liveSlots ?g"
    by (force simp add: liveSlots_def)
  have h4: "namedBy singular ''kids'' (IRArray (IRClass 1)) 1 ''kid''"
    using namedBy.direct [of singular "''kid''" 1]
    by (intro namedBy.array) (simp add: singular_kids)
  then have h4': "namedBy singular ''kids'' (IRArray (IRClass 1)) (int 1) ''kid''" by simp
  have h5: "int 1 \<in> classRefs (IRArray (IRClass 1))" by simp
  let ?P = "\<lambda>cd' old. \<exists>new. c_names cd' = Inferred new
             \<and> ((\<forall>p t. (p, t) \<in> liveSlots ?g \<longrightarrow> int 1 \<notin> classRefs t) \<longrightarrow> new = old)
             \<and> ((\<exists>p t. (p, t) \<in> liveSlots ?g \<and> int 1 \<in> classRefs t) \<longrightarrow>
                   (\<forall>p t nm. (p, t) \<in> liveSlots ?g \<longrightarrow> namedBy singular p t (int 1) nm
                      \<longrightarrow> nm \<in> new)
                 \<and> (\<forall>nm \<in> new. \<exists>p t n. (p, t) \<in> liveSlots ?g \<and> int 1 \<in> classRefs t
                       \<and> nm = (singular ^^ n) p))"
  from regatherClassNames_regathers [OF h1 h2, of singular]
  obtain cd' where c: "classes (regatherClassNames singular ?g) ! 1 = Class cd'"
    "properties cd' = properties \<lparr> c_names = Inferred {''old''}, properties = [] \<rparr>"
    "\<forall>old. c_names \<lparr> c_names = Inferred {''old''}, properties = [] \<rparr> = Inferred old
        \<longrightarrow> ?P cd' old"
    by blast
  from c(3) have "?P cd' {''old''}" by simp
  then obtain new where n: "c_names cd' = Inferred new"
    "(\<exists>p t. (p, t) \<in> liveSlots ?g \<and> int 1 \<in> classRefs t) \<longrightarrow>
       (\<forall>p t nm. (p, t) \<in> liveSlots ?g \<longrightarrow> namedBy singular p t (int 1) nm \<longrightarrow> nm \<in> new)"
    by blast
  from n(2) h3 h4' h5 have "''kid'' \<in> new" by blast
  with c(1,2) n(1) have "\<exists>cd'. classes (regatherClassNames singular ?g) ! 1 = Class cd'
       \<and> properties cd' = [] \<and> (\<exists>new. c_names cd' = Inferred new \<and> ''kid'' \<in> new)"
    by auto
  with h1 h3 h4 show ?thesis by blast
qed

text \<open>
  C5, as the claim words it, fails: the names are not added to the set the class had, and a
  class in the array slot of a union gets the plural name. Class 1 starts with the inferred
  name \<open>old\<close> and is the array element of the union under the property \<open>kids\<close>; after
  the pass its name set is \<open>{kids}\<close>, without \<open>old\<close> and without \<open>kid\<close>.
\<close>

theorem regatherClassNames_counterexample:
  "classes (regatherClassNames singular
      \<lparr> classes =
          [Class \<lparr> c_names = Given {''Root''},
                   properties = [(''kids'',
                     IRUnion (IRUnionRep (Inferred {}) irUnion_Null (Some (IRClass 1)) None None None))] \<rparr>,
           Class \<lparr> c_names = Inferred {''old''}, properties = [] \<rparr>],
        toplevels = [(''Root'', IRClass 0)] \<rparr>) ! 1
     = Class \<lparr> c_names = Inferred {''kids''}, properties = [] \<rparr>
   \<and> ''old'' \<notin> {''kids''}
   \<and> singular ''kids'' = ''kid'' \<and> ''kid'' \<notin> {''kids''}"
  by (simp add: regatherClassNames_def mapClassesInSeq_def mapClasses_def mapWithIndex_def
      classMapper_def gatherFromClassData_def combine_def unionWith_def singular_kids)

section \<open>Properties of the renderers\<close>

subsection \<open>Enums in the TypeScript renderer\<close>

lemma sourceFor_enumElement:
  "enumElement t \<Longrightarrow> sourceFor r t = Inl (Throw ''FIXME: support enums'')"
  by (induction t) simp_all

lemma typeMapTypeFor_enumElement:
  "enumElement t \<Longrightarrow> typeMapTypeFor r t = Inl (Throw ''FIXME: support enums'')"
  by (induction t) simp_all

lemma sourceForAll_fails:
  "t \<in> set ts \<Longrightarrow> sourceFor r t = Inl e \<Longrightarrow> \<exists>e'. sourceForAll r ts = Inl e'"
  by (induction ts) (auto split: sum.splits)

text \<open>
  C7, as the code has it. On an enum type \<open>sourceFor\<close> and \<open>typeMapTypeFor\<close> throw the
  string \<open>FIXME: support enums\<close>, and so does reading \<open>caseNamer\<close>; they throw it as well
  on arrays and maps of enums. An emit hook that meets an enum among the members of a union
  throws and leaves the output, lines and annotations, as it was.
\<close>

theorem typescript_enum_throws:
  "sourceFor r (EnumType n cs) = Inl (Throw ''FIXME: support enums'')
   \<and> typeMapTypeFor r (EnumType n cs) = Inl (Throw ''FIXME: support enums'')
   \<and> caseNamer r = Inl (Throw ''FIXME: support enums'')
   \<and> (enumElement t \<longrightarrow>
         sourceFor r t = Inl (Throw ''FIXME: support enums'')
         \<and> typeMapTypeFor r t = Inl (Throw ''FIXME: support enums''))
   \<and> (EnumType n cs \<in> set (children u) \<longrightarrow> (\<exists>e. emitUnion r u unionName out = (Inl e, out)))"
proof -
  have "\<exists>e. emitUnion r u unionName out = (Inl e, out)" if "EnumType n cs \<in> set (children u)"
  proof -
    from sourceForAll_fails [OF that, of r] obtain e' where "sourceForAll r (children u) = Inl e'"
      by auto
    then show ?thesis by (simp add: emitUnion_def)
  qed
  then show ?thesis
    by (simp add: caseNamer_def sourceFor_enumElement typeMapTypeFor_enumElement)
qed

theorem typescript_enum_throws_witness:
  "enumElement (ArrayType (MapType (EnumType ''Color'' [''red'', ''green''])))
   \<and> sourceFor
      \<lparr> globalNamespace = \<lparr> ns_name = ''global'', members = [] \<rparr>,
        namesForNamedTypes = Map.empty,
        namedTypeNamer = \<lparr> nameStyle = id, prefixes = [] \<rparr>,
        justTypes = False, inlineUnions = True, runtimeTypecheck = False \<rparr>
      (ArrayType (MapType (EnumType ''Color'' [''red'', ''green''])))
     = Inl (Throw ''FIXME: support enums'')
   \<and> EnumType ''Color'' [''red'', ''green'']
       \<in> set (children (UnionType ''U'' [StringType, EnumType ''Color'' [''red'', ''green'']]))
   \<and> snd (emitUnion
      \<lparr> globalNamespace = \<lparr> ns_name = ''global'', members = [] \<rparr>,
        namesForNamedTypes = Map.empty,
        namedTypeNamer = \<lparr> nameStyle = id, prefixes = [] \<rparr>,
        justTypes = False, inlineUnions = True, runtimeTypecheck = False \<rparr>
      (UnionType ''U'' [StringType, EnumType ''Color'' [''red'', ''green'']])
      (FixedName ''U'') \<lparr> emitted = [], annotations = [] \<rparr>)
     = \<lparr> emitted = [], annotations = [] \<rparr>"
proof -
  let ?r = "\<lparr> globalNamespace = \<lparr> ns_name = ''global'', members = [] \<rparr>,
        namesForNamedTypes = Map.empty,
        namedTypeNamer = \<lparr> nameStyle = id, prefixes = [] \<rparr>,
        justTypes = False, inlineUnions = True, runtimeTypecheck = False \<rparr>"
  let ?e = "EnumType ''Color'' [''red'', ''green'']"
  let ?u = "UnionType ''U'' [StringType, ?e]"
  have h1: "enumElement (ArrayType (MapType ?e))" by simp
  have h2: "?e \<in> set (children ?u)" by simp
  from typescript_enum_throws [of ?r "''Color''" "[''red'', ''green'']" "ArrayType (MapType ?e)"
      ?u "FixedName ''U''" "\<lparr> emitted = [], annotations = [] \<rparr>"] h1 h2
  have "sourceFor ?r (ArrayType (MapType ?e)) = Inl (Throw ''FIXME: support enums'')"
    and "\<exists>e. emitUnion ?r ?u (FixedName ''U'') \<lparr> emitted = [], annotations = [] \<rparr>
            = (Inl e, \<lparr> emitted = [], annotations = [] \<rparr>)"
    by blast+
  with h1 h2 show ?thesis by auto
qed

text \<open>
  C7, as the claim words it, fails: no issue annotation is recorded and no placeholder is
  emitted. \<open>sourceFor\<close> on an enum is the bare throw, and \<open>emitUnion\<close> on the union of
  string and an enum, started with no lines and no annotations, throws and has still none.
\<close>

theorem typescript_enum_counterexample:
  "sourceFor
      \<lparr> globalNamespace = \<lparr> ns_name = ''global'', members = [] \<rparr>,
        namesForNamedTypes = Map.empty,
        namedTypeNamer = \<lparr> nameStyle = id, prefixes = [] \<rparr>,
        justTypes = False, inlineUnions = True, runtimeTypecheck = False \<rparr>
      (EnumType ''Color'' [''red'', ''green'']) = Inl (Throw ''FIXME: support enums'')
   \<and> emitUnion
      \<lparr> globalNamespace = \<lparr> ns_name = ''global'', members = [] \<rparr>,
        namesForNamedTypes = Map.empty,
        namedTypeNamer = \<lparr> nameStyle = id, prefixes = [] \<rparr>,
        justTypes = False, inlineUnions = True, runtimeTypecheck = False \<rparr>
      (UnionType ''U'' [StringType, EnumType ''Color'' [''red'', ''green'']])
      (FixedName ''U'') \<lparr> emitted = [], annotations = [] \<rparr>
     = (Inl (Throw ''FIXME: support enums''), \<lparr> emitted = [], annotations = [] \<rparr>)"
  by (simp add: emitUnion_def)

subsection \<open>Looking up the name of a named type\<close>

text \<open>
  C9. \<open>nameForNamedType\<close> is a lookup: it returns the name the renderer holds for the
  type, a name assigned before (the one \<open>addNamedForNamedType\<close> assigned during name
  setup), and it reads the renderer without returning a changed one. On a type without a
  name it throws \<open>Named type does not exist.\<close>
\<close>

theorem nameForNamedType_lookup:
  "(namesForNamedTypes r t = Some n \<longrightarrow> nameForNamedType r t = Inr n)
   \<and> (namesForNamedTypes r t = None \<longrightarrow>
         nameForNamedType r t = Inl (Throw ''Named type does not exist.''))
   \<and> (nameForNamedType r t = Inr n \<longrightarrow> n \<in> ran (namesForNamedTypes r))
   \<and> nameForNamedType (snd (addNamedForNamedType t r)) t = Inr (fst (addNamedForNamedType t r))"
  by (auto simp add: nameForNamedType_def defined_def addNamedForNamedType_def ns_add_def ran_def
      Let_def split: option.splits)

theorem nameForNamedType_lookup_witness:
  "namesForNamedTypes
      \<lparr> globalNamespace = \<lparr> ns_name = ''global'', members = [FixedName ''Root''] \<rparr>,
        namesForNamedTypes = [ClassType ''root'' [] \<mapsto> FixedName ''Root''],
        namedTypeNamer = \<lparr> nameStyle = id, prefixes = [] \<rparr> \<rparr>
      (ClassType ''root'' []) = Some (FixedName ''Root'')
   \<and> nameForNamedType
      \<lparr> globalNamespace = \<lparr> ns_name = ''global'', members = [FixedName ''Root''] \<rparr>,
        namesForNamedTypes = [ClassType ''root'' [] \<mapsto> FixedName ''Root''],
        namedTypeNamer = \<lparr> nameStyle = id, prefixes = [] \<rparr> \<rparr>
      (ClassType ''root'' []) = Inr (FixedName ''Root'')
   \<and> namesForNamedTypes
      \<lparr> globalNamespace = \<lparr> ns_name = ''global'', members = [FixedName ''Root''] \<rparr>,
        namesForNamedTypes = [ClassType ''root'' [] \<mapsto> FixedName ''Root''],
        namedTypeNamer = \<lparr> nameStyle = id, prefixes = [] \<rparr> \<rparr>
      (ClassType ''other'' []) = None
   \<and> nameForNamedType
      \<lparr> globalNamespace = \<lparr> ns_name = ''global'', members = [FixedName ''Root''] \<rparr>,
        namesForNamedTypes = [ClassType ''root'' [] \<mapsto> FixedName ''Root''],
        namedTypeNamer = \<lparr> nameStyle = id, prefixes = [] \<rparr> \<rparr>
      (ClassType ''other'' []) = Inl (Throw ''Named type does not exist.'')"
proof -
  let ?r = "\<lparr> globalNamespace = \<lparr> ns_name = ''global'', members = [FixedName ''Root''] \<rparr>,
        namesForNamedTypes = [ClassType ''root'' [] \<mapsto> FixedName ''Root''],
        namedTypeNamer = \<lparr> nameStyle = id, prefixes = [] \<rparr> \<rparr>"
  have h1: "namesForNamedTypes ?r (ClassType ''root'' []) = Some (FixedName ''Root'')" by simp
  have h2: "namesForNamedTypes ?r (ClassType ''other'' []) = None" by simp
  from nameForNamedType_lookup [of ?r "ClassType ''root'' []" "FixedName ''Root''"] h1
  have a: "nameForNamedType ?r (ClassType ''root'' []) = Inr (FixedName ''Root'')" by blast
  from nameForNamedType_lookup [of ?r "ClassType ''other'' []" "FixedName ''Root''"] h2
  have b: "nameForNamedType ?r (ClassType ''other'' []) = Inl (Throw ''Named type does not exist.'')"
    by blast
  from h1 h2 a b show ?thesis by blast
qed

section \<open>Properties of names and types\<close>

text \<open>
  C6. \<open>unifyNamed f a b\<close> is \<open>Given (f x y)\<close> for two given names, the given one when only
  one of the two is given, and \<open>Inferred (f x y)\<close> for two inferred names.
\<close>

theorem unifyNamed_cases:
  "unifyNamed f (Given x) (Given y) = Given (f x y)
   \<and> unifyNamed f (Given x) (Inferred y) = Given x
   \<and> unifyNamed f (Inferred x) (Given y) = Given y
   \<and> unifyNamed f (Inferred x) (Inferred y) = Inferred (f x y)"
  by simp

text \<open>
  C10. \<open>canBeNull t\<close> holds exactly when \<open>t\<close> is \<open>IRAnyType\<close>, \<open>IRNull\<close>, \<open>IRNoInformation\<close>
  or a union whose bit set has the Null bit.
\<close>

theorem canBeNull_iff:
  "canBeNull t \<longleftrightarrow>
     t = IRAnyType \<or> t = IRNull \<or> t = IRNoInformation
     \<or> (\<exists>u. t = IRUnion u \<and> primitives u AND irUnion_Null \<noteq> 0)"
  by (cases t) simp_all

theorem canBeNull_iff_witness:
  "canBeNull IRNoInformation \<and> canBeNull (IRUnion (IRUnionRep (Inferred {}) 2 None None None None))
   \<and> \<not> canBeNull (IRUnion (IRUnionRep (Inferred {}) 4 None None None None))
   \<and> \<not> canBeNull IRString"
  using canBeNull_iff [of IRNoInformation]
    canBeNull_iff [of "IRUnion (IRUnionRep (Inferred {}) 2 None None None None)"]
    canBeNull_iff [of "IRUnion (IRUnionRep (Inferred {}) 4 None None None None)"]
    canBeNull_iff [of IRString]
  by (simp add: irUnion_Null_def)

end
